theory Spec2Isabelle
  imports Complex_Main "HOL-Library.Word" "HOL-Library.List_Lexorder" "HOL-Library.AList"
begin

section \<open>Sort keys of the completion provider\<close>

text \<open>
  A JavaScript string is a sequence of UTF-16 code units, and \<open><\<close> on two strings
  compares them code unit by code unit, a proper prefix being smaller. The sort key is
  built from code units, so it is modelled as a list of 16-bit words under the
  lexicographic order of lists.
\<close>

type_synonym code_unit = "16 word"
type_synonym js_string = "code_unit list"

definition utf16 :: "string \<Rightarrow> js_string" where
  \<comment> \<open>an ASCII literal of the source as code units\<close>
  "utf16 s = map of_char s"

definition fromCharCode :: "int \<Rightarrow> code_unit" where
  \<comment> \<open>\<open>String.fromCharCode\<close> keeps the low 16 bits of its argument\<close>
  "fromCharCode n = word_of_int n"

definition js_rem :: "int \<Rightarrow> int \<Rightarrow> int" where
  \<comment> \<open>\<open>a % b\<close>: the remainder has the sign of the dividend\<close>
  "js_rem a b = sgn a * (\<bar>a\<bar> mod \<bar>b\<bar>)"

definition generateSortString :: "int \<Rightarrow> js_string" where
  "generateSortString index =
     (if index \<ge> 300 then utf16 ''ZZZZZZZ''
      else if index \<le> 25 then utf16 ''A'' @ [fromCharCode (65 + index)]
      else
        let firstChar = fromCharCode (65 + \<lceil>real_of_int index / 25\<rceil>);
            secondChar = fromCharCode (65 + js_rem index 25)
        in [firstChar, secondChar])"

section \<open>Promises in logical time\<close>

text \<open>
  The completion provider races promises against each other, so a promise is modelled by
  how it ends: it never settles, or it is fulfilled or rejected at a logical time counted
  from the moment \<open>provideCompletionItems\<close> is called. Promises that settle at the same
  time are taken in the order of the array handed to \<open>Promise.race\<close>.
\<close>

datatype error = TypeError | RequestFailed

datatype 'a promise = Never | Resolves nat 'a | Rejects nat error

fun settleTime :: "'a promise \<Rightarrow> nat option" where
  "settleTime Never = None"
| "settleTime (Resolves t v) = Some t"
| "settleTime (Rejects t e) = Some t"

definition race :: "'a promise \<Rightarrow> 'a promise \<Rightarrow> 'a promise" where
  \<comment> \<open>\<open>Promise.race([p, q])\<close>\<close>
  "race p q =
     (case (settleTime p, settleTime q) of
        (None, _) \<Rightarrow> q
      | (Some a, None) \<Rightarrow> p
      | (Some a, Some b) \<Rightarrow> if a \<le> b then p else q)"

fun andThen :: "'a promise \<Rightarrow> ('a \<Rightarrow> error + 'b) \<Rightarrow> 'b promise" where
  \<comment> \<open>\<open>p.then(f)\<close>, and the rest of an async function after \<open>await p\<close>: \<open>Inl\<close> is a throw\<close>
  "andThen Never f = Never"
| "andThen (Rejects t e) f = Rejects t e"
| "andThen (Resolves t v) f = (case f v of Inl e \<Rightarrow> Rejects t e | Inr w \<Rightarrow> Resolves t w)"

record CancellationToken =
  cancelledAt :: "nat option"  \<comment> \<open>when cancellation is requested, if ever\<close>

definition isCancellationRequested :: "CancellationToken \<Rightarrow> nat \<Rightarrow> bool" where
  \<comment> \<open>the token's flag, read at time \<open>t\<close>\<close>
  "isCancellationRequested token t =
     (case cancelledAt token of None \<Rightarrow> False | Some tc \<Rightarrow> tc \<le> t)"

definition sleep :: "nat \<Rightarrow> unit promise" where
  \<comment> \<open>Modelled from the spec: \<open>sleep\<close> of common/utils/async is not among the sources; the
      spec has it as a timer that expires after the timeout.\<close>
  "sleep ms = Resolves ms ()"

definition createPromiseFromCancellation ::
  "'a \<Rightarrow> CancellationToken option \<Rightarrow> 'a promise" where
  \<comment> \<open>Modelled from the spec: \<open>createPromiseFromCancellation\<close> of common/cancellation is not
      among the sources. Called with \<open>cancelAction: 'resolve'\<close>, it resolves with the default
      value once the token is cancelled (the spec: cancellation makes the call resolve with
      no result, never an error), and stays pending without a token or a cancellation.\<close>
  "createPromiseFromCancellation defaultValue token =
     (case token of
        None \<Rightarrow> Never
      | Some tok \<Rightarrow>
          (case cancelledAt tok of None \<Rightarrow> Never | Some tc \<Rightarrow> Resolves tc defaultValue))"

section \<open>Kernel replies\<close>

text \<open>
  The metadata of a completion reply is free-form JSON, and the provider inspects it with
  \<open>Array.isArray\<close> and \<open>typeof\<close>, so it is modelled as a JSON value. A value that may be
  \<open>undefined\<close> is a \<open>json option\<close>. An object lists each of its properties once.
  The provider computes with no number of a reply: it only tests that a value is a number
  and hands offsets on to the document, so numbers are integers here.
\<close>

datatype json =
  JNull
| JBool bool
| JNumber int
| JString string
| JArray "json list"
| JObject "(string \<times> json) list"

fun getProperty :: "json \<Rightarrow> string \<Rightarrow> json option" where
  \<comment> \<open>\<open>v.name\<close> for the property names read here, on a value other than \<open>null\<close>: only an
      object has them. Reading a property of \<open>null\<close> raises; the callers test for it.\<close>
  "getProperty (JObject kvs) name = map_of kvs name"
| "getProperty v name = None"

fun truthy :: "json option \<Rightarrow> bool" where
  "truthy None = False"
| "truthy (Some JNull) = False"
| "truthy (Some (JBool b)) = b"
| "truthy (Some (JNumber n)) = (n \<noteq> 0)"
| "truthy (Some (JString s)) = (s \<noteq> [])"
| "truthy (Some (JArray xs)) = True"
| "truthy (Some (JObject kvs)) = True"

fun isNumber :: "json option \<Rightarrow> bool" where
  \<comment> \<open>\<open>typeof v === 'number'\<close>\<close>
  "isNumber (Some (JNumber n)) = True"
| "isNumber v = False"

fun isString :: "json option \<Rightarrow> bool" where
  \<comment> \<open>\<open>typeof v === 'string'\<close>\<close>
  "isString (Some (JString s)) = True"
| "isString v = False"

fun numberOf :: "json option \<Rightarrow> int" where
  \<comment> \<open>the number in a value that passed \<open>isNumber\<close>\<close>
  "numberOf (Some (JNumber n)) = n"
| "numberOf v = 0"

fun stringOf :: "json option \<Rightarrow> string" where
  \<comment> \<open>the string in a value that passed \<open>isString\<close>\<close>
  "stringOf (Some (JString s)) = s"
| "stringOf v = []"

record INotebookCompletion =
  matches :: "string list"
  cursor :: "int \<times> int"  \<comment> \<open>start and end\<close>
  metadata :: "json option"

datatype content =
  WithMatches "string list" int int "json option"
    \<comment> \<open>matches, cursor_start, cursor_end, metadata\<close>
| WithoutMatches  \<comment> \<open>an error or abort reply: an object with no \<open>matches\<close>\<close>

record ICompleteReplyMsg =
  content :: "content option"

record CompleteRequest =
  code :: string
  cursor_pos :: int

record IJupyterSession =
  status :: string
  requestComplete :: "CompleteRequest \<Rightarrow> ICompleteReplyMsg option promise"

record IKernel =
  session :: "IJupyterSession option"

section \<open>The completion provider\<close>

type_synonym Position = "nat \<times> nat"  \<comment> \<open>line and character\<close>
type_synonym NotebookDocument = string  \<comment> \<open>a notebook, by its uri\<close>

datatype Range = Range Position Position

datatype CompletionItemKind =
  Text | Method | Function | Constructor | Field | Variable | Class | Interface | Module
| Property | Unit | Value | Enum | Keyword | Snippet | Color | File | Reference | Folder
| EnumMember | Constant | Struct | Event | Operator | TypeParameter

record CompletionItem =
  label :: string
  itemRange :: "Range option"
  kind :: "CompletionItemKind option"
  sortText :: js_string

record TextDocument =
  uri :: string
  isNotebookCell :: bool  \<comment> \<open>what \<open>isNotebookCell(document)\<close> answers\<close>
  getText :: string
  offsetAt :: "Position \<Rightarrow> int"
  positionAt :: "int \<Rightarrow> Position"

text \<open>
  The collaborators of the provider: the notebook lookup, the kernel provider, the table
  \<open>mapJupyterKind\<close> and the timeout in force (the setting, or its override).
\<close>

record collaborators =
  findAssociatedNotebookDocument :: "string \<Rightarrow> NotebookDocument option"
  kernelProvider_get :: "NotebookDocument \<Rightarrow> IKernel option"
  mapJupyterKind :: "string \<rightharpoonup> CompletionItemKind"
  timeout :: nat

datatype call =
  FindAssociatedNotebookDocument string
| KernelProviderGet NotebookDocument
| RequestComplete CompleteRequest

definition emptyResult :: INotebookCompletion where
  "emptyResult = \<lparr>matches = [], cursor = (0, 0), metadata = Some (JObject [])\<rparr>"

definition completionOfReply :: "ICompleteReplyMsg option \<Rightarrow> INotebookCompletion" where
  \<comment> \<open>what \<open>getJupyterCompletion\<close> returns for the outcome of its race\<close>
  "completionOfReply result =
     (case result of
        None \<Rightarrow> emptyResult
      | Some msg \<Rightarrow>
          (case content msg of
             None \<Rightarrow> emptyResult
           | Some (WithMatches ms cursor_start cursor_end md) \<Rightarrow>
               \<lparr>matches = ms, cursor = (cursor_start, cursor_end), metadata = md\<rparr>
           | Some WithoutMatches \<Rightarrow> emptyResult))"

definition requestOrCancellation ::
  "IJupyterSession \<Rightarrow> CompleteRequest \<Rightarrow> CancellationToken option \<Rightarrow>
   ICompleteReplyMsg option promise" where
  \<comment> \<open>the race of \<open>getJupyterCompletion\<close>: the request against the cancellation\<close>
  "requestOrCancellation sess request cancelToken =
     race (requestComplete sess request) (createPromiseFromCancellation None cancelToken)"

definition getJupyterCompletion ::
  "IJupyterSession \<Rightarrow> string \<Rightarrow> int \<Rightarrow> CancellationToken option \<Rightarrow>
   call list \<times> INotebookCompletion promise" where
  "getJupyterCompletion sess cellCode offsetInCode cancelToken =
     (if status sess = ''busy'' then ([], Resolves 0 emptyResult)
      else
        let request = \<lparr>code = cellCode, cursor_pos = offsetInCode\<rparr>;
            result = requestOrCancellation sess request cancelToken
        in ([RequestComplete request], andThen result (\<lambda>r. Inr (completionOfReply r))))"

fun itemIsValid :: "json \<Rightarrow> error + bool" where
  \<comment> \<open>the callback of \<open>every\<close>: \<open>item.start\<close> on \<open>null\<close> is a TypeError\<close>
  "itemIsValid JNull = Inl TypeError"
| "itemIsValid item =
     Inr (isNumber (getProperty item ''start'') \<and> isNumber (getProperty item ''end'') \<and>
          isString (getProperty item ''text''))"

fun every :: "('a \<Rightarrow> error + bool) \<Rightarrow> 'a list \<Rightarrow> error + bool" where
  \<comment> \<open>\<open>Array.prototype.every\<close>: in order, stopping at the first failure\<close>
  "every f [] = Inr True"
| "every f (x # xs) =
     (case f x of Inl e \<Rightarrow> Inl e | Inr False \<Rightarrow> Inr False | Inr True \<Rightarrow> every f xs)"

definition kindOfItem :: "(string \<rightharpoonup> CompletionItemKind) \<Rightarrow> json \<Rightarrow> CompletionItemKind option" where
  \<comment> \<open>\<open>item.type ? mapJupyterKind.get(item.type) : CompletionItemKind.Field\<close>; the table has
      string keys, so \<open>get\<close> of another value is \<open>undefined\<close>\<close>
  "kindOfItem table item =
     (if truthy (getProperty item ''type'')
      then (case getProperty item ''type'' of Some (JString tag) \<Rightarrow> table tag | _ \<Rightarrow> None)
      else Some Field)"

definition experimentItem ::
  "collaborators \<Rightarrow> TextDocument \<Rightarrow> nat \<times> json \<Rightarrow> CompletionItem" where
  "experimentItem env document = (\<lambda>(index, item).
     \<lparr>label = stringOf (getProperty item ''text''),
      itemRange = Some (Range (positionAt document (numberOf (getProperty item ''start'')))
                              (positionAt document (numberOf (getProperty item ''end'')))),
      kind = kindOfItem (mapJupyterKind env) item,
      sortText = generateSortString (int index)\<rparr>)"

definition matchItem :: "nat \<times> string \<Rightarrow> CompletionItem" where
  "matchItem = (\<lambda>(index, item).
     \<lparr>label = item, itemRange = None, kind = None, sortText = generateSortString (int index)\<rparr>)"

definition experimentMatches :: "INotebookCompletion \<Rightarrow> json option" where
  \<comment> \<open>\<open>result.metadata ? result.metadata._jupyter_types_experimental : []\<close>\<close>
  "experimentMatches result =
     (case metadata result of
        None \<Rightarrow> Some (JArray [])
      | Some md \<Rightarrow>
          if truthy (Some md) then getProperty md ''_jupyter_types_experimental''
          else Some (JArray []))"

definition completionItems ::
  "collaborators \<Rightarrow> TextDocument \<Rightarrow> INotebookCompletion option \<Rightarrow>
   error + CompletionItem list" where
  \<comment> \<open>\<open>provideCompletionItems\<close> from the end of its race on\<close>
  "completionItems env document result =
     (case result of
        None \<Rightarrow> Inr []
      | Some res \<Rightarrow>
          (case experimentMatches res of
             Some (JArray items) \<Rightarrow>
               if length items \<ge> length (matches res) then
                 (case every itemIsValid items of
                    Inl e \<Rightarrow> Inl e
                  | Inr True \<Rightarrow> Inr (map (experimentItem env document) (enumerate 0 items))
                  | Inr False \<Rightarrow> Inr (map matchItem (enumerate 0 (matches res))))
               else Inr (map matchItem (enumerate 0 (matches res)))
           | _ \<Rightarrow> Inr (map matchItem (enumerate 0 (matches res)))))"

definition timeoutBranch :: "nat \<Rightarrow> CancellationToken \<Rightarrow> INotebookCompletion option promise" where
  \<comment> \<open>the second promise of the race of \<open>provideCompletionItems\<close>:
      \<open>sleep(timeout).then(...)\<close>, which yields \<open>undefined\<close> or \<open>emptyResult\<close>\<close>
  "timeoutBranch ms token =
     andThen (sleep ms) (\<lambda>_.
       if isCancellationRequested token ms then Inr None else Inr (Some emptyResult))"

definition provideCompletionItems ::
  "collaborators \<Rightarrow> TextDocument \<Rightarrow> Position \<Rightarrow> CancellationToken \<Rightarrow>
   call list \<times> CompletionItem list promise" where
  "provideCompletionItems env document position token =
     (if \<not> isNotebookCell document then ([], Resolves 0 [])
      else
        case findAssociatedNotebookDocument env (uri document) of
          None \<Rightarrow> ([FindAssociatedNotebookDocument (uri document)], Resolves 0 [])
        | Some notebookDocument \<Rightarrow>
            let lookups = [FindAssociatedNotebookDocument (uri document),
                           KernelProviderGet notebookDocument]
            in (case kernelProvider_get env notebookDocument of
                  None \<Rightarrow> (lookups, Resolves 0 [])
                | Some liveKernel \<Rightarrow>
                    (case session liveKernel of
                       None \<Rightarrow> (lookups, Resolves 0 [])
                     | Some sess \<Rightarrow>
                         let (rpcCalls, completion) =
                               getJupyterCompletion sess (getText document)
                                 (offsetAt document position) (Some token);
                             result = race (andThen completion (\<lambda>r. Inr (Some r)))
                                           (timeoutBranch (timeout env) token)
                         in (lookups @ rpcCalls,
                             andThen result (completionItems env document)))))"

subsection \<open>Example inputs\<close>

text \<open>
  A cell document of one line, a session that answers every request the same way, and
  collaborators that find the notebook and that session. The kind table of the examples
  knows two tags.
\<close>

definition exampleDocument :: "bool \<Rightarrow> TextDocument" where
  "exampleDocument isCell =
     \<lparr>uri = ''cell'', isNotebookCell = isCell, getText = ''ab'',
      offsetAt = (\<lambda>(line, character). int character),
      positionAt = (\<lambda>offset. (0, nat offset))\<rparr>"

definition exampleSession :: "string \<Rightarrow> ICompleteReplyMsg option promise \<Rightarrow> IJupyterSession" where
  "exampleSession st answer = \<lparr>status = st, requestComplete = (\<lambda>request. answer)\<rparr>"

definition exampleEnv :: "IJupyterSession \<Rightarrow> collaborators" where
  "exampleEnv sess =
     \<lparr>findAssociatedNotebookDocument = (\<lambda>u. Some ''notebook''),
      kernelProvider_get = (\<lambda>n. Some \<lparr>session = Some sess\<rparr>),
      mapJupyterKind = [''function'' \<mapsto> Function, ''instance'' \<mapsto> Variable],
      timeout = 50\<rparr>"

definition experimental :: "json list \<Rightarrow> json option" where
  \<comment> \<open>metadata whose experimental field holds the given array\<close>
  "experimental items = Some (JObject [(''_jupyter_types_experimental'', JArray items)])"

definition exampleReply :: "string list \<Rightarrow> json option \<Rightarrow> ICompleteReplyMsg option" where
  "exampleReply ms md = Some \<lparr>content = Some (WithMatches ms 0 0 md)\<rparr>"

definition exampleItem :: "string \<Rightarrow> json" where
  \<comment> \<open>a well-formed experimental element with the given type tag\<close>
  "exampleItem tag =
     JObject [(''start'', JNumber 0), (''end'', JNumber 2), (''text'', JString ''abc''),
              (''type'', JString tag)]"

section \<open>The raw notebook provider\<close>

text \<open>
  \<open>dispose\<close> awaits promises with \<open>Promise.all\<close>, where only the way each promise ends
  matters: resolved with a value, rejected, or pending for ever.
\<close>

datatype 'a outcome = Resolved 'a | Rejected | Pending

fun promiseAll :: "'a outcome list \<Rightarrow> 'a list outcome" where
  \<comment> \<open>\<open>Promise.all\<close>: rejected as soon as one promise is, resolved once all are\<close>
  "promiseAll [] = Resolved []"
| "promiseAll (Rejected # ps) = Rejected"
| "promiseAll (Pending # ps) =
     (case promiseAll ps of Rejected \<Rightarrow> Rejected | _ \<Rightarrow> Pending)"
| "promiseAll (Resolved v # ps) =
     (case promiseAll ps of
        Resolved vs \<Rightarrow> Resolved (v # vs)
      | Rejected \<Rightarrow> Rejected
      | Pending \<Rightarrow> Pending)"

text \<open>
  Objects compared by reference are modelled by their identity: a number for each
  \<open>Promise<INotebook>\<close>, each \<open>RawConnection\<close> and each execution session. The map
  \<open>notebooks\<close> is a JavaScript \<open>Map\<close>: each key once, in insertion order.
\<close>

type_synonym promise_id = nat
type_synonym RawConnection = nat
type_synonym session_id = nat

record INotebook =
  notebookSession :: session_id  \<comment> \<open>the field \<open>session\<close> of a notebook\<close>

record RawNotebookProviderBase =
  notebooks :: "(string \<times> promise_id) list"
  rawConnection :: "RawConnection option"
  connectionsCreated :: nat
    \<comment> \<open>how many times \<open>new RawConnection()\<close> has run; the next object gets this identity\<close>

definition newProvider :: RawNotebookProviderBase where
  \<comment> \<open>the fields as the class initialises them\<close>
  "newProvider = \<lparr>notebooks = [], rawConnection = None, connectionsCreated = 0\<rparr>"

definition newRawConnection ::
  "RawNotebookProviderBase \<Rightarrow> RawConnection \<times> RawNotebookProviderBase" where
  "newRawConnection this =
     (connectionsCreated this, this\<lparr>connectionsCreated := Suc (connectionsCreated this)\<rparr>)"

definition connect ::
  "bool \<Rightarrow> RawNotebookProviderBase \<Rightarrow> RawConnection option \<times> RawNotebookProviderBase" where
  \<comment> \<open>the argument is \<open>options.getOnly\<close>\<close>
  "connect getOnly this =
     (if getOnly then (rawConnection this, this)
      else
        let this' =
              (case rawConnection this of
                 None \<Rightarrow>
                   let (c, created) = newRawConnection this
                   in created\<lparr>rawConnection := Some c\<rparr>
               | Some c \<Rightarrow> this)
        in (rawConnection this', this'))"

definition getConnection ::
  "RawNotebookProviderBase \<Rightarrow> RawConnection \<times> RawNotebookProviderBase" where
  "getConnection this =
     (case rawConnection this of
        None \<Rightarrow>
          let (c, created) = newRawConnection this
          in (c, created\<lparr>rawConnection := Some c\<rparr>)
      | Some c \<Rightarrow> (c, this))"

definition getNotebook :: "string \<Rightarrow> RawNotebookProviderBase \<Rightarrow> promise_id option" where
  \<comment> \<open>the argument is \<open>document.uri.toString()\<close>\<close>
  "getNotebook key this = map_of (notebooks this) key"

definition getNotebooks :: "RawNotebookProviderBase \<Rightarrow> promise_id list" where
  "getNotebooks this = map snd (notebooks this)"

definition removeNotebook ::
  "string \<Rightarrow> promise_id \<Rightarrow> RawNotebookProviderBase \<Rightarrow> RawNotebookProviderBase" where
  \<comment> \<open>the closure \<open>removeNotebook\<close> of \<open>setNotebook(document, notebook)\<close>, run when the
      promise is rejected\<close>
  "removeNotebook key notebook this =
     (if map_of (notebooks this) key = Some notebook
      then this\<lparr>notebooks := AList.delete key (notebooks this)\<rparr>
      else this)"

definition onDidDispose ::
  "string \<Rightarrow> promise_id \<Rightarrow> RawNotebookProviderBase \<Rightarrow> RawNotebookProviderBase" where
  \<comment> \<open>the listener that \<open>setNotebook(document, notebook)\<close> puts on the session's
      \<open>onDidDispose\<close>, run when the session signals its disposal\<close>
  "onDidDispose key notebook this =
     (if map_of (notebooks this) key = Some notebook
      then this\<lparr>notebooks := AList.delete key (notebooks this)\<rparr>
      else this)"

definition setNotebook ::
  "string \<Rightarrow> promise_id \<Rightarrow> RawNotebookProviderBase \<Rightarrow> RawNotebookProviderBase" where
  \<comment> \<open>\<open>this.notebooks.set\<close>: a key already there keeps its place and gets the new promise.
      The two handlers the method installs are \<open>onDidDispose\<close> and \<open>removeNotebook\<close> above,
      for this key and this promise.\<close>
  "setNotebook key notebook this =
     this\<lparr>notebooks := AList.update key notebook (notebooks this)\<rparr>"

definition createNotebook ::
  "RawNotebookProviderBase \<Rightarrow> promise_id outcome \<times> RawNotebookProviderBase" where
  \<comment> \<open>the base class: \<open>createNotebookInstance\<close> throws, so the promise is rejected\<close>
  "createNotebook this = (Rejected, this)"

text \<open>
  \<open>dispose\<close> awaits twice, and while it awaits, the handlers that \<open>setNotebook\<close>
  installed run. The chain \<open>notebook.then(...).catch(removeNotebook)\<close> of a tracked promise
  runs \<open>removeNotebook\<close> when the promise is rejected, and also when it resolves to no
  notebook, since the callback of \<open>then\<close> reads \<open>nb.session\<close> and throws. The listener
  on \<open>onDidDispose\<close> of a session runs when the session signals its disposal; whether a
  session does so once its \<open>dispose()\<close> is called is for the session to say.
\<close>

record SessionDisposal =
  disposeEnds :: "unit outcome"  \<comment> \<open>how the promise of \<open>session.dispose()\<close> ends\<close>
  firesOnDidDispose :: bool  \<comment> \<open>whether the session then signals its disposal\<close>

fun catchHandlerRuns :: "INotebook option outcome \<Rightarrow> bool" where
  "catchHandlerRuns Rejected = True"
| "catchHandlerRuns (Resolved None) = True"
| "catchHandlerRuns (Resolved (Some nb)) = False"
| "catchHandlerRuns Pending = False"

fun whileAwaitingNotebooks ::
  "(promise_id \<Rightarrow> INotebook option outcome) \<Rightarrow> (string \<times> promise_id) list \<Rightarrow>
   RawNotebookProviderBase \<Rightarrow> RawNotebookProviderBase" where
  \<comment> \<open>the handlers that run as the tracked promises settle\<close>
  "whileAwaitingNotebooks settle [] this = this"
| "whileAwaitingNotebooks settle ((key, notebook) # tracked) this =
     whileAwaitingNotebooks settle tracked
       (if catchHandlerRuns (settle notebook) then removeNotebook key notebook this else this)"

fun whileAwaitingSessions ::
  "(session_id \<Rightarrow> SessionDisposal) \<Rightarrow> ((string \<times> promise_id) \<times> INotebook option) list \<Rightarrow>
   RawNotebookProviderBase \<Rightarrow> RawNotebookProviderBase" where
  \<comment> \<open>the listeners that run as the disposed sessions signal their disposal; each tracked
      entry comes with the notebook its promise resolved to\<close>
  "whileAwaitingSessions sessionDispose [] this = this"
| "whileAwaitingSessions sessionDispose (((key, notebook), n) # rest) this =
     whileAwaitingSessions sessionDispose rest
       (case n of
          None \<Rightarrow> this
        | Some nb \<Rightarrow>
            if firesOnDidDispose (sessionDispose (notebookSession nb))
            then onDidDispose key notebook this else this)"

definition dispose ::
  "(promise_id \<Rightarrow> INotebook option outcome) \<Rightarrow> (session_id \<Rightarrow> SessionDisposal) \<Rightarrow>
   RawNotebookProviderBase \<Rightarrow> (session_id list \<times> unit outcome) \<times> RawNotebookProviderBase" where
  \<comment> \<open>\<open>settle\<close> tells how each tracked promise ends and \<open>sessionDispose\<close> what the
      \<open>dispose()\<close> of each session does. The result lists the sessions whose \<open>dispose()\<close>
      was called, in order, and tells how the promise of \<open>dispose\<close> itself ends. The
      provider in the result is the provider once the handlers of what \<open>dispose\<close> awaited
      have run; \<open>dispose\<close> itself writes nothing to the provider. (When several tracked
      promises are rejected, \<open>dispose\<close> settles at the first rejection and the handlers of
      the others run after it; the provider in the result is the one after all of them.)\<close>
  "dispose settle sessionDispose this =
     (let tracked = notebooks this;
          awaited = whileAwaitingNotebooks settle tracked this
      in case promiseAll (map settle (map snd tracked)) of
           Rejected \<Rightarrow> (([], Rejected), awaited)
         | Pending \<Rightarrow> (([], Pending), awaited)
         | Resolved nbs \<Rightarrow>
             let disposals = map (\<lambda>n. case n of
                                      None \<Rightarrow> (None, Resolved ())
                                    | Some nb \<Rightarrow>
                                        (Some (notebookSession nb),
                                         disposeEnds (sessionDispose (notebookSession nb)))) nbs
             in ((List.map_filter fst disposals,
                  case promiseAll (map snd disposals) of
                    Resolved units \<Rightarrow> Resolved ()
                  | Rejected \<Rightarrow> Rejected
                  | Pending \<Rightarrow> Pending),
                 whileAwaitingSessions sessionDispose (zip tracked nbs) awaited))"

datatype operation =
  Connect bool
| GetConnection
| CreateNotebook
| GetNotebook string
| GetNotebooks
| SetNotebook string promise_id
| Dispose
| SessionDisposed string promise_id
    \<comment> \<open>the session of this registration signals its disposal\<close>
| NotebookRejected string promise_id
    \<comment> \<open>the promise of this registration is rejected, or resolves to no notebook\<close>

fun step ::
  "(promise_id \<Rightarrow> INotebook option outcome) \<Rightarrow> (session_id \<Rightarrow> SessionDisposal) \<Rightarrow>
   operation \<Rightarrow> RawNotebookProviderBase \<Rightarrow> RawNotebookProviderBase" where
  "step settle sd (Connect getOnly) this = snd (connect getOnly this)"
| "step settle sd GetConnection this = snd (getConnection this)"
| "step settle sd CreateNotebook this = snd (createNotebook this)"
| "step settle sd (GetNotebook key) this = this"
| "step settle sd GetNotebooks this = this"
| "step settle sd (SetNotebook key notebook) this = setNotebook key notebook this"
| "step settle sd Dispose this = snd (dispose settle sd this)"
| "step settle sd (SessionDisposed key notebook) this = onDidDispose key notebook this"
| "step settle sd (NotebookRejected key notebook) this = removeNotebook key notebook this"

fun run ::
  "(promise_id \<Rightarrow> INotebook option outcome) \<Rightarrow> (session_id \<Rightarrow> SessionDisposal) \<Rightarrow>
   operation list \<Rightarrow> RawNotebookProviderBase \<Rightarrow> RawNotebookProviderBase" where
  "run settle sd [] this = this"
| "run settle sd (operation # operations) this =
     run settle sd operations (step settle sd operation this)"

subsection \<open>Example promises\<close>

definition exampleSettle :: "promise_id \<Rightarrow> INotebook option outcome" where
  \<comment> \<open>promise 1 is rejected; every other promise resolves to a notebook with its own session\<close>
  "exampleSettle p = (if p = 1 then Rejected else Resolved (Some \<lparr>notebookSession = 10 + p\<rparr>))"

definition exampleSessionDispose :: "session_id \<Rightarrow> SessionDisposal" where
  \<comment> \<open>every session is disposed without failure and signals its disposal\<close>
  "exampleSessionDispose s = \<lparr>disposeEnds = Resolved (), firesOnDidDispose = True\<rparr>"

section \<open>Properties of the sort keys\<close>

text \<open>
  C1 (the keys of consecutive indices are strictly increasing for every index in [0,300)):
  the code breaks it at index 50. Index 49 gets the key CY and index 50 the key CA, since
  \<open>Math.ceil(50 / 25)\<close> is still 2 while \<open>50 % 25\<close> is back to 0, so the key of
  index 49 is not below the key of index 50.
\<close>

theorem generateSortString_breaks_at_50:
  "generateSortString 49 = utf16 ''CY'' \<and> generateSortString 50 = utf16 ''CA'' \<and>
   \<not> generateSortString (50 - 1) < generateSortString 50"
  by (simp add: generateSortString_def utf16_def fromCharCode_def js_rem_def)

text \<open>
  Where the order of the keys holds and where it does not: for an index in [0,300), the
  key of the index before is below the key of the index exactly when the index is not one
  of the multiples of 25 from 50 on. The key of 300 is not below the key of 299.
\<close>

lemma fromCharCode_less_iff:
  "0 \<le> a \<Longrightarrow> a < 65536 \<Longrightarrow> 0 \<le> b \<Longrightarrow> b < 65536 \<Longrightarrow>
   fromCharCode a < fromCharCode b \<longleftrightarrow> a < b"
  by (simp add: fromCharCode_def word_less_def uint_word_of_int take_bit_eq_mod)

lemma fromCharCode_eq_iff:
  "0 \<le> a \<Longrightarrow> a < 65536 \<Longrightarrow> 0 \<le> b \<Longrightarrow> b < 65536 \<Longrightarrow>
   fromCharCode a = fromCharCode b \<longleftrightarrow> a = b"
  by (simp add: fromCharCode_def word_uint_eq_iff uint_word_of_int take_bit_eq_mod)

lemma ceil25: "\<lceil>real_of_int i / 25\<rceil> = - ((- i) div 25)"
  using ceiling_divide_eq_div [of i 25] by simp

lemma utf16_A: "utf16 ''A'' = [fromCharCode 65]"
  by (simp add: utf16_def fromCharCode_def)

lemma generateSortString_two_letters:
  assumes "25 < j" and "j < 300"
  shows "generateSortString j =
           [fromCharCode (65 + (- ((- j) div 25))), fromCharCode (65 + j mod 25)]"
proof -
  have "js_rem j 25 = j mod 25"
    using assms by (simp add: js_rem_def)
  with assms show ?thesis
    by (simp add: generateSortString_def ceil25 Let_def)
qed

lemma generateSortString_order:
  assumes "0 \<le> i" and "i < 300"
  shows "generateSortString (i - 1) < generateSortString i \<longleftrightarrow> \<not> (50 \<le> i \<and> i mod 25 = 0)"
proof -
  consider "i \<le> 25" | "i = 26" | "27 \<le> i" by linarith
  then show ?thesis
  proof cases
    case 1
    with assms show ?thesis
      by (simp add: generateSortString_def utf16_A fromCharCode_less_iff fromCharCode_eq_iff)
  next
    case 2
    then show ?thesis
      by (simp add: generateSortString_def utf16_def fromCharCode_def js_rem_def)
  next
    case 3
    define q where "q = i div 25"
    define m where "m = i mod 25"
    have i: "i = 25 * q + m" and m: "0 \<le> m" "m < 25"
      by (simp_all add: q_def m_def)
    have keys: "generateSortString (i - 1)
                  = [fromCharCode (65 + (- ((- (i - 1)) div 25))), fromCharCode (65 + (i - 1) mod 25)]"
      "generateSortString i = [fromCharCode (65 + (- ((- i) div 25))), fromCharCode (65 + m)]"
      using 3 assms generateSortString_two_letters [of "i - 1"] generateSortString_two_letters [of i]
      by (simp_all add: m_def)
    have up: "- ((- i) div 25) = (if m = 0 then q else q + 1)"
      by (simp add: zdiv_zminus1_eq_if q_def m_def)
    have q: "1 \<le> q" "q < 12"
      using 3 assms i m by linarith+
    show ?thesis
    proof (cases "m = 0")
      case True
      then have e: "i - 1 = 25 * (q - 1) + 24" using i by simp
      have d: "(i - 1) div 25 = q - 1"
        by (rule int_div_pos_eq [OF e]) simp_all
      have low: "(i - 1) mod 25 = 24"
        by (rule int_mod_pos_eq [OF e]) simp_all
      from d low zdiv_zminus1_eq_if [of 25 "i - 1"] have "- ((- (i - 1)) div 25) = q"
        by simp
      moreover have "50 \<le> i"
        using True i 3 by presburger
      ultimately show ?thesis
        using True up low q
        by (simp add: keys fromCharCode_less_iff fromCharCode_eq_iff m_def)
    next
      case False
      then have e: "i - 1 = 25 * q + (m - 1)" and m1: "0 \<le> m - 1" "m - 1 < 25"
        using i m by simp_all
      have d: "(i - 1) div 25 = q"
        by (rule int_div_pos_eq [OF e m1])
      have low: "(i - 1) mod 25 = m - 1"
        by (rule int_mod_pos_eq [OF e m1])
      from d low zdiv_zminus1_eq_if [of 25 "i - 1"]
      have "- ((- (i - 1)) div 25) = (if m = 1 then q else q + 1)"
        by simp
      with False up low q m show ?thesis
        by (simp add: keys fromCharCode_less_iff fromCharCode_eq_iff m_def [symmetric])
    qed
  qed
qed

lemma generateSortString_last: "generateSortString 299 \<le> generateSortString 300"
  by (simp add: generateSortString_def utf16_def fromCharCode_def js_rem_def)

section \<open>Properties of the races\<close>

lemma race_cancel_first:
  assumes "\<forall>t. settleTime p = Some t \<longrightarrow> tc < t"
  shows "race p (Resolves tc v) = Resolves tc v"
  using assms by (cases p) (auto simp: race_def)

lemma race_first_wins:
  assumes "settleTime p = Some t" and "\<forall>u. settleTime q = Some u \<longrightarrow> t \<le> u"
  shows "race p q = p"
  using assms by (cases q) (auto simp: race_def)

lemma race_Rejects_cases:
  "race p q = Rejects t e \<Longrightarrow> p = Rejects t e \<or> q = Rejects t e"
  by (cases p; cases q) (auto simp: race_def split: if_splits)

lemma race_Resolves_cases:
  "race p q = Resolves t v \<Longrightarrow> p = Resolves t v \<or> q = Resolves t v"
  by (cases p; cases q) (auto simp: race_def split: if_splits)

lemma createPromiseFromCancellation_not_Rejects:
  "createPromiseFromCancellation v tok \<noteq> Rejects t e"
  by (simp add: createPromiseFromCancellation_def split: option.splits)

lemma createPromiseFromCancellation_Resolves:
  "createPromiseFromCancellation v tok = Resolves t w \<Longrightarrow> w = v"
  by (simp add: createPromiseFromCancellation_def split: option.splits)

lemma createPromiseFromCancellation_settleTime:
  "settleTime (createPromiseFromCancellation v cancelToken) = Some u \<Longrightarrow>
   \<exists>tok. cancelToken = Some tok \<and> cancelledAt tok = Some u"
  by (auto simp: createPromiseFromCancellation_def split: option.splits)

lemma completionOfReply_cases:
  "completionOfReply reply = emptyResult \<or>
   (\<exists>ms cs ce md. reply = Some \<lparr>content = Some (WithMatches ms cs ce md)\<rparr> \<and>
      completionOfReply reply = \<lparr>matches = ms, cursor = (cs, ce), metadata = md\<rparr>)"
proof (cases reply)
  case None
  then show ?thesis by (simp add: completionOfReply_def)
next
  case (Some msg)
  show ?thesis
  proof (cases "content msg")
    case None
    with Some show ?thesis by (simp add: completionOfReply_def)
  next
    case (Some c)
    with \<open>reply = Some msg\<close> show ?thesis
      by (cases c; cases msg) (auto simp: completionOfReply_def)
  qed
qed

lemma andThen_Inr_Resolves:
  "andThen p (\<lambda>r. Inr (f r)) = Resolves t w \<Longrightarrow> \<exists>v. p = Resolves t v \<and> w = f v"
  by (cases p) auto

lemma andThen_Inr_Rejects:
  "andThen p (\<lambda>r. Inr (f r)) = Rejects t e \<Longrightarrow> p = Rejects t e"
  by (cases p) auto

lemma completionItems_emptyResult: "completionItems env document (Some emptyResult) = Inr []"
  by (simp add: completionItems_def emptyResult_def experimentMatches_def enumerate_eq_zip)

section \<open>Properties of the completion provider\<close>

text \<open>
  C9: for a document that is not a notebook cell, \<open>provideCompletionItems\<close> returns the
  empty list at once and calls none of its collaborators: not the notebook lookup, not the
  kernel provider, not the kernel.
\<close>

theorem not_a_notebook_cell:
  "\<not> isNotebookCell document \<Longrightarrow>
   provideCompletionItems env document position token = ([], Resolves 0 [])"
  by (simp add: provideCompletionItems_def)

theorem not_a_notebook_cell_witness:
  "\<not> isNotebookCell (exampleDocument False) \<and>
   provideCompletionItems (exampleEnv (exampleSession ''idle'' Never)) (exampleDocument False)
     (0, 2) \<lparr>cancelledAt = None\<rparr> = ([], Resolves 0 [])"
proof -
  have h: "\<not> isNotebookCell (exampleDocument False)"
    by (simp add: exampleDocument_def)
  from h not_a_notebook_cell [OF h, of "exampleEnv (exampleSession ''idle'' Never)" "(0, 2)"
      "\<lparr>cancelledAt = None\<rparr>"]
  show ?thesis by simp
qed

lemma provideCompletionItems_without_session:
  assumes "findAssociatedNotebookDocument env (uri document) = None \<or>
           (\<exists>notebookDocument.
              findAssociatedNotebookDocument env (uri document) = Some notebookDocument \<and>
              (kernelProvider_get env notebookDocument = None \<or>
               (\<exists>liveKernel. kernelProvider_get env notebookDocument = Some liveKernel \<and>
                  session liveKernel = None)))"
  shows "snd (provideCompletionItems env document position token) = Resolves 0 []"
  using assms by (auto simp: provideCompletionItems_def)

text \<open>
  C7: when the cancellation is requested before the timeout and before the request to the
  kernel settles (if it ever does), the timeout branch yields \<open>undefined\<close> and not the
  empty result, the race of the request against the cancellation resolves to
  \<open>undefined\<close> at the time of the cancellation, and \<open>provideCompletionItems\<close> resolves
  to the empty list: nothing is rejected. With a busy session the request is not sent and
  the empty list comes at once.
\<close>

theorem cancelled_before_request_and_timeout:
  assumes cell: "isNotebookCell document"
    and nb: "findAssociatedNotebookDocument env (uri document) = Some notebookDocument"
    and k: "kernelProvider_get env notebookDocument = Some liveKernel"
    and s: "session liveKernel = Some sess"
    and c: "cancelledAt token = Some tc"
    and before_timeout: "tc < timeout env"
    and before_rpc: "\<forall>t. settleTime (requestComplete sess
                 \<lparr>code = getText document, cursor_pos = offsetAt document position\<rparr>) = Some t
               \<longrightarrow> tc < t"
  shows "timeoutBranch (timeout env) token = Resolves (timeout env) None \<and>
         requestOrCancellation sess
           \<lparr>code = getText document, cursor_pos = offsetAt document position\<rparr> (Some token)
           = Resolves tc None \<and>
         snd (provideCompletionItems env document position token)
           = Resolves (if status sess = ''busy'' then 0 else tc) []"
proof -
  have tb: "timeoutBranch (timeout env) token = Resolves (timeout env) None"
    using c before_timeout
    by (simp add: timeoutBranch_def sleep_def isCancellationRequested_def)
  have rc: "requestOrCancellation sess
           \<lparr>code = getText document, cursor_pos = offsetAt document position\<rparr> (Some token)
         = Resolves tc None"
    using c before_rpc
    by (simp add: requestOrCancellation_def createPromiseFromCancellation_def race_cancel_first)
  have "snd (provideCompletionItems env document position token)
           = Resolves (if status sess = ''busy'' then 0 else tc) []"
  proof (cases "status sess = ''busy''")
    case True
    then show ?thesis
      using cell nb k s tb
      by (simp add: provideCompletionItems_def getJupyterCompletion_def race_def
          completionItems_emptyResult)
  next
    case False
    then show ?thesis
      using cell nb k s tb rc before_timeout
      by (simp add: provideCompletionItems_def getJupyterCompletion_def race_def
          completionItems_emptyResult completionOfReply_def)
  qed
  with tb rc show ?thesis by simp
qed

theorem cancelled_before_request_and_timeout_witness:
  "cancelledAt \<lparr>cancelledAt = Some 7\<rparr> = Some 7 \<and>
   7 < timeout (exampleEnv (exampleSession ''idle'' (Resolves 9 (exampleReply [''abc''] None)))) \<and>
   timeoutBranch 50 \<lparr>cancelledAt = Some 7\<rparr> = Resolves 50 None \<and>
   snd (provideCompletionItems
          (exampleEnv (exampleSession ''idle'' (Resolves 9 (exampleReply [''abc''] None))))
          (exampleDocument True) (0, 2) \<lparr>cancelledAt = Some 7\<rparr>) = Resolves 7 []"
proof -
  let ?sess = "exampleSession ''idle'' (Resolves 9 (exampleReply [''abc''] None))"
  have cell: "isNotebookCell (exampleDocument True)"
    by (simp add: exampleDocument_def)
  have nb: "findAssociatedNotebookDocument (exampleEnv ?sess) (uri (exampleDocument True))
              = Some ''notebook''"
    by (simp add: exampleEnv_def)
  have k: "kernelProvider_get (exampleEnv ?sess) ''notebook'' = Some \<lparr>session = Some ?sess\<rparr>"
    by (simp add: exampleEnv_def)
  have s: "session \<lparr>session = Some ?sess\<rparr> = Some ?sess"
    by simp
  have c: "cancelledAt \<lparr>cancelledAt = Some 7\<rparr> = Some 7"
    by simp
  have bt: "7 < timeout (exampleEnv ?sess)"
    by (simp add: exampleEnv_def)
  have br: "\<forall>t. settleTime (requestComplete ?sess
              \<lparr>code = getText (exampleDocument True),
                 cursor_pos = offsetAt (exampleDocument True) (0, 2)\<rparr>) = Some t \<longrightarrow> 7 < t"
    by (simp add: exampleSession_def)
  have t: "timeout (exampleEnv ?sess) = 50" and i: "status ?sess \<noteq> ''busy''"
    by (simp_all add: exampleEnv_def exampleSession_def)
  from cancelled_before_request_and_timeout [OF cell nb k s c bt br] c bt t i
  show ?thesis by simp
qed

text \<open>
  C8: with a busy session \<open>getJupyterCompletion\<close> returns the empty result without
  sending the request. Otherwise it sends one request; a reply that arrives before any
  cancellation is mapped by its content: content with matches gives the matches, the
  cursor and the metadata, and a reply without matches, without content, or no reply at
  all gives the empty result. The shape of a reply never makes it fail: its promise is
  rejected only when the request itself is, and whenever it resolves, the result is the
  empty result or the matches of the reply.
\<close>

theorem getJupyterCompletion_shapes:
  "(status sess = ''busy'' \<longrightarrow>
      getJupyterCompletion sess cellCode offsetInCode cancelToken = ([], Resolves 0 emptyResult)) \<and>
   (status sess \<noteq> ''busy'' \<longrightarrow>
      fst (getJupyterCompletion sess cellCode offsetInCode cancelToken)
        = [RequestComplete \<lparr>code = cellCode, cursor_pos = offsetInCode\<rparr>] \<and>
      (\<forall>t reply.
         requestComplete sess \<lparr>code = cellCode, cursor_pos = offsetInCode\<rparr> = Resolves t reply \<and>
         (\<forall>tok tc. cancelToken = Some tok \<longrightarrow> cancelledAt tok = Some tc \<longrightarrow> t \<le> tc) \<longrightarrow>
         snd (getJupyterCompletion sess cellCode offsetInCode cancelToken)
           = Resolves t (completionOfReply reply))) \<and>
   (\<forall>t e. snd (getJupyterCompletion sess cellCode offsetInCode cancelToken) = Rejects t e \<longrightarrow>
      requestComplete sess \<lparr>code = cellCode, cursor_pos = offsetInCode\<rparr> = Rejects t e) \<and>
   (\<forall>t r. snd (getJupyterCompletion sess cellCode offsetInCode cancelToken) = Resolves t r \<longrightarrow>
      r = emptyResult \<or>
      (\<exists>ms cs ce md.
         requestComplete sess \<lparr>code = cellCode, cursor_pos = offsetInCode\<rparr>
           = Resolves t (Some \<lparr>content = Some (WithMatches ms cs ce md)\<rparr>) \<and>
         r = \<lparr>matches = ms, cursor = (cs, ce), metadata = md\<rparr>)) \<and>
   completionOfReply (Some \<lparr>content = Some (WithMatches ms cs ce md)\<rparr>)
     = \<lparr>matches = ms, cursor = (cs, ce), metadata = md\<rparr> \<and>
   completionOfReply (Some \<lparr>content = Some WithoutMatches\<rparr>) = emptyResult \<and>
   completionOfReply (Some \<lparr>content = None\<rparr>) = emptyResult \<and>
   completionOfReply None = emptyResult"
proof -
  let ?req = "\<lparr>code = cellCode, cursor_pos = offsetInCode\<rparr>"
  let ?g = "getJupyterCompletion sess cellCode offsetInCode cancelToken"
  have busy: "status sess = ''busy'' \<longrightarrow> ?g = ([], Resolves 0 emptyResult)"
    by (simp add: getJupyterCompletion_def Let_def)
  have calls: "status sess \<noteq> ''busy'' \<longrightarrow> fst ?g = [RequestComplete ?req]"
    by (simp add: getJupyterCompletion_def Let_def)
  have arrives: "snd ?g = Resolves t (completionOfReply reply)"
    if "status sess \<noteq> ''busy''" and r: "requestComplete sess ?req = Resolves t reply"
      and c: "\<forall>tok tc. cancelToken = Some tok \<longrightarrow> cancelledAt tok = Some tc \<longrightarrow> t \<le> tc"
    for t reply
  proof -
    have "\<forall>u. settleTime (createPromiseFromCancellation None cancelToken) = Some u \<longrightarrow> t \<le> u"
      using c by (auto dest: createPromiseFromCancellation_settleTime)
    then have "race (Resolves t reply) (createPromiseFromCancellation None cancelToken)
                 = Resolves t reply"
      by (intro race_first_wins) simp_all
    then have "requestOrCancellation sess ?req cancelToken = Resolves t reply"
      using r by (simp add: requestOrCancellation_def)
    then show ?thesis using that(1) by (simp add: getJupyterCompletion_def Let_def)
  qed
  have rejects: "requestComplete sess ?req = Rejects t e" if "snd ?g = Rejects t e" for t e
  proof (cases "status sess = ''busy''")
    case True
    with that show ?thesis by (simp add: getJupyterCompletion_def Let_def)
  next
    case False
    with that have "requestOrCancellation sess ?req cancelToken = Rejects t e"
      by (auto simp: getJupyterCompletion_def Let_def dest: andThen_Inr_Rejects)
    then show ?thesis
      by (auto simp: requestOrCancellation_def createPromiseFromCancellation_not_Rejects
          dest: race_Rejects_cases)
  qed
  have resolves: "r = emptyResult \<or>
      (\<exists>ms cs ce md.
         requestComplete sess ?req = Resolves t (Some \<lparr>content = Some (WithMatches ms cs ce md)\<rparr>) \<and>
         r = \<lparr>matches = ms, cursor = (cs, ce), metadata = md\<rparr>)"
    if "snd ?g = Resolves t r" for t r
  proof (cases "status sess = ''busy''")
    case True
    with that show ?thesis by (simp add: getJupyterCompletion_def Let_def)
  next
    case False
    with that obtain reply where
      won: "requestOrCancellation sess ?req cancelToken = Resolves t reply"
      and r: "r = completionOfReply reply"
      by (auto simp: getJupyterCompletion_def Let_def dest: andThen_Inr_Resolves)
    from won have "requestComplete sess ?req = Resolves t reply \<or> reply = None"
      by (auto simp: requestOrCancellation_def
          dest!: race_Resolves_cases createPromiseFromCancellation_Resolves)
    then show ?thesis
    proof
      assume "reply = None"
      with r show ?thesis by (simp add: completionOfReply_def)
    next
      assume "requestComplete sess ?req = Resolves t reply"
      with r completionOfReply_cases [of reply] show ?thesis by auto
    qed
  qed
  have shapes:
    "completionOfReply (Some \<lparr>content = Some (WithMatches ms cs ce md)\<rparr>)
       = \<lparr>matches = ms, cursor = (cs, ce), metadata = md\<rparr>"
    "completionOfReply (Some \<lparr>content = Some WithoutMatches\<rparr>) = emptyResult"
    "completionOfReply (Some \<lparr>content = None\<rparr>) = emptyResult"
    "completionOfReply None = emptyResult"
    by (simp_all add: completionOfReply_def)
  from busy calls arrives rejects resolves shapes show ?thesis by blast
qed

theorem getJupyterCompletion_shapes_witness:
  "getJupyterCompletion (exampleSession ''busy'' Never) ''ab'' 2 None
     = ([], Resolves 0 emptyResult) \<and>
   getJupyterCompletion (exampleSession ''idle'' (Resolves 3 (exampleReply [''abc''] None)))
       ''ab'' 2 (Some \<lparr>cancelledAt = Some 7\<rparr>)
     = ([RequestComplete \<lparr>code = ''ab'', cursor_pos = 2\<rparr>],
        Resolves 3 \<lparr>matches = [''abc''], cursor = (0, 0), metadata = None\<rparr>)"
proof -
  let ?busy = "exampleSession ''busy'' Never"
  let ?idle = "exampleSession ''idle'' (Resolves 3 (exampleReply [''abc''] None))"
  let ?tok = "Some \<lparr>cancelledAt = Some (7::nat)\<rparr>"
  have b: "status ?busy = ''busy''" and i: "status ?idle \<noteq> ''busy''"
    by (simp_all add: exampleSession_def)
  have r: "requestComplete ?idle \<lparr>code = ''ab'', cursor_pos = 2\<rparr>
             = Resolves 3 (exampleReply [''abc''] None)"
    by (simp add: exampleSession_def)
  have c: "\<forall>tok tc. ?tok = Some tok \<longrightarrow> cancelledAt tok = Some tc \<longrightarrow> (3::nat) \<le> tc"
    by auto
  have first: "getJupyterCompletion ?busy ''ab'' 2 None = ([], Resolves 0 emptyResult)"
    using getJupyterCompletion_shapes [of ?busy "''ab''" 2 None] b by blast
  have "fst (getJupyterCompletion ?idle ''ab'' 2 ?tok)
          = [RequestComplete \<lparr>code = ''ab'', cursor_pos = 2\<rparr>] \<and>
        snd (getJupyterCompletion ?idle ''ab'' 2 ?tok)
          = Resolves 3 (completionOfReply (exampleReply [''abc''] None))"
    using getJupyterCompletion_shapes [of ?idle "''ab''" 2 ?tok] i r c by blast
  moreover have "completionOfReply (exampleReply [''abc''] None)
                   = \<lparr>matches = [''abc''], cursor = (0, 0), metadata = None\<rparr>"
    using getJupyterCompletion_shapes [of ?idle "''ab''" 2 ?tok "[''abc'']" 0 0 None]
    by (simp add: exampleReply_def)
  ultimately have "getJupyterCompletion ?idle ''ab'' 2 ?tok
     = ([RequestComplete \<lparr>code = ''ab'', cursor_pos = 2\<rparr>],
        Resolves 3 \<lparr>matches = [''abc''], cursor = (0, 0), metadata = None\<rparr>)"
    by (simp add: prod_eq_iff)
  with first show ?thesis by simp
qed

section \<open>Properties of the two reply schemas\<close>

text \<open>
  As long as no element of the experimental array is \<open>null\<close>, the choice between the two
  schemas is all or nothing: the experimental elements are used when the field is an array
  at least as long as the matches whose elements all have a numeric start, a numeric end
  and a string text, and the matches are used otherwise.
\<close>

lemma every_itemIsValid_no_null:
  "JNull \<notin> set items \<Longrightarrow>
   every itemIsValid items =
     Inr (\<forall>item \<in> set items. isNumber (getProperty item ''start'') \<and>
            isNumber (getProperty item ''end'') \<and> isString (getProperty item ''text''))"
proof (induction items)
  case Nil
  then show ?case by simp
next
  case (Cons item items)
  then have "item \<noteq> JNull" by auto
  then have "itemIsValid item =
     Inr (isNumber (getProperty item ''start'') \<and> isNumber (getProperty item ''end'') \<and>
          isString (getProperty item ''text''))"
    by (cases item) simp_all
  with Cons show ?case by (auto split: bool.splits)
qed

lemma every_itemIsValid_True:
  "every itemIsValid items = Inr True \<Longrightarrow> item \<in> set items \<Longrightarrow>
   item \<noteq> JNull \<and> isNumber (getProperty item ''start'') \<and>
   isNumber (getProperty item ''end'') \<and> isString (getProperty item ''text'')"
proof (induction items)
  case Nil
  then show ?case by simp
next
  case (Cons x xs)
  show ?case
  proof (cases x)
    case JNull
    with Cons.prems show ?thesis by simp
  qed (use Cons in \<open>auto split: sum.splits bool.splits if_splits\<close>)
qed

lemma completionItems_all_or_nothing:
  assumes "\<forall>items. experimentMatches res = Some (JArray items) \<longrightarrow> JNull \<notin> set items"
  shows "completionItems env document (Some res) =
     Inr (case experimentMatches res of
            Some (JArray items) \<Rightarrow>
              if length (matches res) \<le> length items \<and>
                 (\<forall>item \<in> set items. isNumber (getProperty item ''start'') \<and>
                    isNumber (getProperty item ''end'') \<and> isString (getProperty item ''text''))
              then map (experimentItem env document) (enumerate 0 items)
              else map matchItem (enumerate 0 (matches res))
          | _ \<Rightarrow> map matchItem (enumerate 0 (matches res)))"
proof (cases "experimentMatches res")
  case None
  then show ?thesis by (simp add: completionItems_def)
next
  case (Some v)
  show ?thesis
  proof (cases v)
    case (JArray items)
    with Some assms have "JNull \<notin> set items" by simp
    from every_itemIsValid_no_null [OF this] Some JArray show ?thesis
      by (auto simp: completionItems_def split: bool.splits)
  qed (use Some in \<open>simp_all add: completionItems_def\<close>)
qed

lemma experimentItem_fields:
  assumes "getProperty item ''text'' = Some (JString t)"
    and "getProperty item ''start'' = Some (JNumber a)"
    and "getProperty item ''end'' = Some (JNumber b)"
  shows "experimentItem env document (i, item) =
     \<lparr>label = t,
      itemRange = Some (Range (positionAt document a) (positionAt document b)),
      kind = kindOfItem (mapJupyterKind env) item,
      sortText = generateSortString (int i)\<rparr>"
  using assms by (simp add: experimentItem_def)

lemma completionItems_valid:
  assumes "experimentMatches res = Some (JArray items)"
    and "length (matches res) \<le> length items"
    and "every itemIsValid items = Inr True"
  shows "completionItems env document (Some res)
         = Inr (map (experimentItem env document) (enumerate 0 items))"
  using assms by (simp add: completionItems_def)

text \<open>
  C2 (the experimental field is used exactly when it is valid, and every other reply falls
  back to the matches): the code breaks it for an array with a \<open>null\<close> element. The
  callback of \<open>every\<close> reads \<open>item.start\<close> of \<open>null\<close>, which raises a TypeError, so
  the promise of \<open>provideCompletionItems\<close> is rejected where the claim has the items of
  the matches (here none).
\<close>

theorem null_element_raises:
  "completionItems env document
     (Some \<lparr>matches = [], cursor = (0, 0), metadata = experimental [JNull]\<rparr>) = Inl TypeError \<and>
   snd (provideCompletionItems
          (exampleEnv (exampleSession ''idle'' (Resolves 1 (exampleReply [] (experimental [JNull])))))
          (exampleDocument True) (0, 2) \<lparr>cancelledAt = None\<rparr>) = Rejects 1 TypeError"
  by (simp add: completionItems_def experimentMatches_def experimental_def
      provideCompletionItems_def exampleEnv_def exampleSession_def exampleDocument_def
      exampleReply_def getJupyterCompletion_def requestOrCancellation_def race_def
      createPromiseFromCancellation_def completionOfReply_def timeoutBranch_def sleep_def
      isCancellationRequested_def)

text \<open>
  C4, as stated (an unknown type tag gets the kind Field): false. With a table that does
  not know the tag zzz, a valid element with that tag gets no kind at all, since
  \<open>mapJupyterKind.get\<close> answers \<open>undefined\<close>.
\<close>

theorem unknown_tag_has_no_kind:
  "completionItems (exampleEnv (exampleSession ''idle'' Never)) (exampleDocument True)
     (Some \<lparr>matches = [''abc''], cursor = (0, 0), metadata = experimental [exampleItem ''zzz'']\<rparr>)
   = Inr [\<lparr>label = ''abc'', itemRange = Some (Range (0, 0) (0, 2)), kind = None,
           sortText = utf16 ''AA''\<rparr>] \<and>
   mapJupyterKind (exampleEnv (exampleSession ''idle'' Never)) ''zzz'' = None"
  by (simp add: completionItems_def experimentMatches_def experimental_def exampleItem_def
      exampleEnv_def exampleDocument_def experimentItem_def kindOfItem_def enumerate_eq_zip
      generateSortString_def utf16_def fromCharCode_def)

text \<open>
  C4, amended: for a valid experimental set, the item of each element has the kind that the
  table gives for its type tag when the tag is a non-empty string the table knows, the
  kind Field when the tag is absent or falsy, and no kind when the tag is a non-empty
  string the table does not know.
\<close>

theorem kind_of_experimental_items:
  assumes "experimentMatches res = Some (JArray items)"
    and "length (matches res) \<le> length items"
    and "every itemIsValid items = Inr True"
    and "i < length items"
  shows "\<exists>out. completionItems env document (Some res) = Inr out \<and> length out = length items \<and>
     (\<forall>tag k. getProperty (items ! i) ''type'' = Some (JString tag) \<and> tag \<noteq> [] \<and>
         mapJupyterKind env tag = Some k \<longrightarrow> kind (out ! i) = Some k) \<and>
     (\<not> truthy (getProperty (items ! i) ''type'') \<longrightarrow> kind (out ! i) = Some Field) \<and>
     (\<forall>tag. getProperty (items ! i) ''type'' = Some (JString tag) \<and> tag \<noteq> [] \<and>
         mapJupyterKind env tag = None \<longrightarrow> kind (out ! i) = None)"
proof -
  let ?out = "map (experimentItem env document) (enumerate 0 items)"
  have out: "completionItems env document (Some res) = Inr ?out"
    using assms(1-3) by (rule completionItems_valid)
  have "?out ! i = experimentItem env document (i, items ! i)"
    using assms(4) by (simp add: nth_enumerate_eq)
  then have k: "kind (?out ! i) = kindOfItem (mapJupyterKind env) (items ! i)"
    by (simp add: experimentItem_def)
  show ?thesis
    using out k by (auto simp: kindOfItem_def)
qed

theorem kind_of_experimental_items_witness:
  "every itemIsValid [exampleItem ''function''] = Inr True \<and>
   (\<exists>out. completionItems (exampleEnv (exampleSession ''idle'' Never)) (exampleDocument True)
            (Some \<lparr>matches = [''abc''], cursor = (0, 0),
                    metadata = experimental [exampleItem ''function'']\<rparr>) = Inr out \<and>
          kind (out ! 0) = Some Function)"
proof -
  let ?res = "\<lparr>matches = [''abc''], cursor = (0, 0),
                metadata = experimental [exampleItem ''function'']\<rparr>"
  let ?env = "exampleEnv (exampleSession ''idle'' Never)"
  have e: "experimentMatches ?res = Some (JArray [exampleItem ''function''])"
    by (simp add: experimentMatches_def experimental_def)
  have l: "length (matches ?res) \<le> length [exampleItem ''function'']"
    by simp
  have v: "every itemIsValid [exampleItem ''function''] = Inr True"
    by (simp add: exampleItem_def)
  have i: "0 < length [exampleItem ''function'']"
    by simp
  have t: "getProperty ([exampleItem ''function''] ! 0) ''type'' = Some (JString ''function'') \<and>
           ''function'' \<noteq> [] \<and> mapJupyterKind ?env ''function'' = Some Function"
    by (simp add: exampleItem_def exampleEnv_def)
  from kind_of_experimental_items [OF e l v i, of ?env "exampleDocument True"] t v
  show ?thesis by blast
qed

section \<open>Properties of the raw notebook provider\<close>

subsection \<open>Disposal\<close>

lemma promiseAll_Rejected: "Rejected \<in> set ps \<Longrightarrow> promiseAll ps = Rejected"
proof (induction ps)
  case Nil
  then show ?case by simp
next
  case (Cons p ps)
  then show ?case by (cases p) (auto split: outcome.splits)
qed

lemma promiseAll_Resolved: "promiseAll (map Resolved vs) = Resolved vs"
  by (induction vs) simp_all

lemma all_resolved_values:
  "\<forall>p \<in> set ps. \<exists>n. settle p = Resolved n \<Longrightarrow> \<exists>vs. map settle ps = map Resolved vs"
proof (induction ps)
  case Nil
  then show ?case by simp
next
  case (Cons p ps)
  then obtain n vs where "settle p = Resolved n" "map settle ps = map Resolved vs" by auto
  then have "map settle (p # ps) = map Resolved (n # vs)" by simp
  then show ?case by blast
qed

lemma requested_sessions:
  "map settle ps = map Resolved nbs \<Longrightarrow>
   List.map_filter fst
     (map (\<lambda>n. case n of None \<Rightarrow> (None, Resolved ())
                 | Some nb \<Rightarrow> (Some (notebookSession nb), ends nb)) nbs)
   = List.map_filter
       (\<lambda>p. case settle p of Resolved (Some nb) \<Rightarrow> Some (notebookSession nb) | _ \<Rightarrow> None) ps"
proof (induction ps arbitrary: nbs)
  case Nil
  then show ?case by (simp add: List.map_filter_simps)
next
  case (Cons p ps)
  then obtain n rest where nbs: "nbs = n # rest" and p: "settle p = Resolved n"
    and rest: "map settle ps = map Resolved rest"
    by (cases nbs) auto
  from Cons.IH [OF rest] nbs p show ?case
    by (cases n) (simp_all add: List.map_filter_simps)
qed

lemma promiseAll_Rejected_iff: "promiseAll ps = Rejected \<longleftrightarrow> Rejected \<in> set ps"
proof (induction ps)
  case Nil
  then show ?case by simp
next
  case (Cons p ps)
  then show ?case by (cases p) (auto split: outcome.splits)
qed

lemma promiseAll_Pending:
  "Rejected \<notin> set ps \<Longrightarrow> Pending \<in> set ps \<Longrightarrow> promiseAll ps = Pending"
proof (induction ps)
  case Nil
  then show ?case by simp
next
  case (Cons p ps)
  then have "promiseAll ps \<noteq> Rejected"
    by (simp add: promiseAll_Rejected_iff)
  with Cons show ?case
    by (cases p) (auto split: outcome.splits)
qed

text \<open>
  C3, as stated (a session promise that fails does not stop the disposal of the other
  sessions): false. With two tracked promises, the first rejected and the second resolved
  to a notebook with session 12, \<open>dispose\<close> is rejected and calls \<open>dispose()\<close> on no
  session.
\<close>

theorem dispose_counterexample:
  "getNotebooks (setNotebook ''b'' 2 (setNotebook ''a'' 1 newProvider)) = [1, 2] \<and>
   exampleSettle 1 = Rejected \<and>
   exampleSettle 2 = Resolved (Some \<lparr>notebookSession = 12\<rparr>) \<and>
   fst (dispose exampleSettle exampleSessionDispose
          (setNotebook ''b'' 2 (setNotebook ''a'' 1 newProvider))) = ([], Rejected)"
  by (simp add: dispose_def getNotebooks_def setNotebook_def newProvider_def exampleSettle_def)

text \<open>
  C3, amended: \<open>dispose\<close> awaits all tracked session promises together. When all of them
  resolve, it calls \<open>dispose()\<close> on the session of each resolved notebook, in the order of
  the map. When one of them is rejected, \<open>dispose\<close> is rejected and calls \<open>dispose()\<close>
  on no session; when none is rejected and one never settles, it never gets to call any.
\<close>

theorem dispose_all_or_nothing:
  "((\<forall>p \<in> set (getNotebooks this). \<exists>n. settle p = Resolved n) \<longrightarrow>
      fst (fst (dispose settle sd this)) =
        List.map_filter
          (\<lambda>p. case settle p of Resolved (Some nb) \<Rightarrow> Some (notebookSession nb) | _ \<Rightarrow> None)
          (getNotebooks this)) \<and>
   ((\<exists>p \<in> set (getNotebooks this). settle p = Rejected) \<longrightarrow>
      fst (dispose settle sd this) = ([], Rejected)) \<and>
   ((\<forall>p \<in> set (getNotebooks this). settle p \<noteq> Rejected) \<and>
    (\<exists>p \<in> set (getNotebooks this). settle p = Pending) \<longrightarrow>
      fst (dispose settle sd this) = ([], Pending))"
proof (intro conjI impI)
  assume "\<forall>p \<in> set (getNotebooks this). \<exists>n. settle p = Resolved n"
  then obtain nbs where nbs: "map settle (map snd (notebooks this)) = map Resolved nbs"
    unfolding getNotebooks_def by (blast dest: all_resolved_values)
  then have "promiseAll (map settle (map snd (notebooks this))) = Resolved nbs"
    by (simp only: promiseAll_Resolved)
  then show "fst (fst (dispose settle sd this)) =
        List.map_filter
          (\<lambda>p. case settle p of Resolved (Some nb) \<Rightarrow> Some (notebookSession nb) | _ \<Rightarrow> None)
          (getNotebooks this)"
    using requested_sessions [OF nbs, of "\<lambda>nb. disposeEnds (sd (notebookSession nb))"]
    by (simp add: dispose_def getNotebooks_def Let_def)
next
  assume "\<exists>p \<in> set (getNotebooks this). settle p = Rejected"
  then have "Rejected \<in> set (map settle (map snd (notebooks this)))"
    unfolding getNotebooks_def by force
  then have "promiseAll (map settle (map snd (notebooks this))) = Rejected"
    by (rule promiseAll_Rejected)
  then show "fst (dispose settle sd this) = ([], Rejected)"
    by (simp add: dispose_def Let_def)
next
  assume a: "(\<forall>p \<in> set (getNotebooks this). settle p \<noteq> Rejected) \<and>
    (\<exists>p \<in> set (getNotebooks this). settle p = Pending)"
  then have "Rejected \<notin> set (map settle (map snd (notebooks this)))"
    unfolding getNotebooks_def by force
  moreover from a have "Pending \<in> set (map settle (map snd (notebooks this)))"
    unfolding getNotebooks_def by force
  ultimately have "promiseAll (map settle (map snd (notebooks this))) = Pending"
    by (rule promiseAll_Pending)
  then show "fst (dispose settle sd this) = ([], Pending)"
    by (simp add: dispose_def Let_def)
qed

theorem dispose_all_or_nothing_witness:
  "getNotebooks (setNotebook ''b'' 2 (setNotebook ''a'' 3 newProvider)) = [3, 2] \<and>
   exampleSettle 3 = Resolved (Some \<lparr>notebookSession = 13\<rparr>) \<and>
   exampleSettle 2 = Resolved (Some \<lparr>notebookSession = 12\<rparr>) \<and>
   fst (fst (dispose exampleSettle exampleSessionDispose
               (setNotebook ''b'' 2 (setNotebook ''a'' 3 newProvider)))) = [13, 12] \<and>
   (\<exists>p \<in> set (getNotebooks (setNotebook ''b'' 2 (setNotebook ''a'' 1 newProvider))).
      exampleSettle p = Rejected) \<and>
   fst (dispose exampleSettle exampleSessionDispose
          (setNotebook ''b'' 2 (setNotebook ''a'' 1 newProvider))) = ([], Rejected)"
proof -
  let ?good = "setNotebook ''b'' 2 (setNotebook ''a'' 3 newProvider)"
  let ?bad = "setNotebook ''b'' 2 (setNotebook ''a'' 1 newProvider)"
  have g: "getNotebooks ?good = [3, 2]" and b: "getNotebooks ?bad = [1, 2]"
    by (simp_all add: getNotebooks_def setNotebook_def newProvider_def)
  have all: "\<forall>p \<in> set (getNotebooks ?good). \<exists>n. exampleSettle p = Resolved n"
    by (simp add: g exampleSettle_def)
  have one: "\<exists>p \<in> set (getNotebooks ?bad). exampleSettle p = Rejected"
    by (simp add: getNotebooks_def setNotebook_def newProvider_def exampleSettle_def)
  from dispose_all_or_nothing [of ?good exampleSettle exampleSessionDispose] all
  have "fst (fst (dispose exampleSettle exampleSessionDispose ?good)) =
        List.map_filter
          (\<lambda>p. case exampleSettle p of Resolved (Some nb) \<Rightarrow> Some (notebookSession nb)
                | _ \<Rightarrow> None)
          (getNotebooks ?good)"
    by blast
  then have first: "fst (fst (dispose exampleSettle exampleSessionDispose ?good)) = [13, 12]"
    by (simp add: g exampleSettle_def List.map_filter_simps)
  from dispose_all_or_nothing [of ?bad exampleSettle exampleSessionDispose] one
  have "fst (dispose exampleSettle exampleSessionDispose ?bad) = ([], Rejected)"
    by blast
  moreover have "exampleSettle 3 = Resolved (Some \<lparr>notebookSession = 13\<rparr>)"
    and "exampleSettle 2 = Resolved (Some \<lparr>notebookSession = 12\<rparr>)"
    by (simp_all add: exampleSettle_def)
  ultimately show ?thesis using g first one by blast
qed

subsection \<open>The map of notebooks\<close>

lemma getNotebook_setNotebook:
  "getNotebook key' (setNotebook key p this) = (if key' = key then Some p else getNotebook key' this)"
  by (simp add: getNotebook_def setNotebook_def update_conv')

lemma onDidDispose_other: "getNotebook key this \<noteq> Some p \<Longrightarrow> onDidDispose key p this = this"
  by (simp add: onDidDispose_def getNotebook_def)

lemma removeNotebook_other: "getNotebook key this \<noteq> Some p \<Longrightarrow> removeNotebook key p this = this"
  by (simp add: removeNotebook_def getNotebook_def)

lemma getNotebook_onDidDispose:
  "getNotebook key' (onDidDispose key p this) =
     (if key' = key \<and> getNotebook key this = Some p then None else getNotebook key' this)"
  by (simp add: onDidDispose_def getNotebook_def delete_conv')

lemma getNotebook_removeNotebook:
  "getNotebook key' (removeNotebook key p this) =
     (if key' = key \<and> getNotebook key this = Some p then None else getNotebook key' this)"
  by (simp add: removeNotebook_def getNotebook_def delete_conv')

text \<open>
  C5: once a registration of a key has been superseded by a newer promise, the disposal
  signal of the old session, or the rejection of the old promise, leaves the entry of the
  key with the newer promise. A handler changes the provider only while the map still has
  the very promise it was installed for under that key, and then it deletes the entry.
\<close>

theorem superseded_registration_kept:
  assumes "p1 \<noteq> p2"
  shows "getNotebook key (onDidDispose key p1 (setNotebook key p2 (setNotebook key p1 this))) = Some p2 \<and>
         getNotebook key (removeNotebook key p1 (setNotebook key p2 (setNotebook key p1 this))) = Some p2 \<and>
         (getNotebook key that = Some p2 \<longrightarrow>
            onDidDispose key p1 that = that \<and> removeNotebook key p1 that = that) \<and>
         (getNotebook key that = Some p1 \<longrightarrow>
            getNotebook key (onDidDispose key p1 that) = None \<and>
            getNotebook key (removeNotebook key p1 that) = None)"
  using assms
  by (simp add: getNotebook_onDidDispose getNotebook_removeNotebook getNotebook_setNotebook
      onDidDispose_other removeNotebook_other)

theorem superseded_registration_kept_witness:
  "(1::nat) \<noteq> 2 \<and>
   getNotebook ''a'' (onDidDispose ''a'' 1 (setNotebook ''a'' 2 (setNotebook ''a'' 1 newProvider)))
     = Some 2 \<and>
   getNotebook ''a'' (removeNotebook ''a'' 1 (setNotebook ''a'' 2 (setNotebook ''a'' 1 newProvider)))
     = Some 2"
proof -
  have h: "(1::nat) \<noteq> 2" by simp
  from superseded_registration_kept [OF h, of "''a''" newProvider] h
  show ?thesis by blast
qed

lemma notebooks_connect: "notebooks (snd (connect getOnly this)) = notebooks this"
  by (simp add: connect_def newRawConnection_def Let_def split: option.splits)

lemma notebooks_getConnection: "notebooks (snd (getConnection this)) = notebooks this"
  by (simp add: getConnection_def newRawConnection_def split: option.splits)

lemma getNotebook_whileAwaitingNotebooks:
  "getNotebook key (whileAwaitingNotebooks settle tracked this) = None \<or>
   getNotebook key (whileAwaitingNotebooks settle tracked this) = getNotebook key this"
proof (induction tracked arbitrary: this)
  case Nil
  then show ?case by simp
next
  case (Cons entry tracked)
  obtain k n where entry: "entry = (k, n)" by (cases entry)
  let ?that = "if catchHandlerRuns (settle n) then removeNotebook k n this else this"
  have "getNotebook key ?that = None \<or> getNotebook key ?that = getNotebook key this"
    by (simp add: getNotebook_removeNotebook)
  with Cons.IH [of ?that] entry show ?case by auto
qed

lemma removed_whileAwaitingNotebooks:
  "getNotebook key this = Some p \<Longrightarrow>
   getNotebook key (whileAwaitingNotebooks settle tracked this) = None \<Longrightarrow>
   (key, p) \<in> set tracked \<and> catchHandlerRuns (settle p)"
proof (induction tracked arbitrary: this)
  case Nil
  then show ?case by simp
next
  case (Cons entry tracked)
  obtain k n where entry: "entry = (k, n)" by (cases entry)
  let ?that = "if catchHandlerRuns (settle n) then removeNotebook k n this else this"
  from Cons.prems entry
  have gone: "getNotebook key (whileAwaitingNotebooks settle tracked ?that) = None"
    by simp
  show ?case
  proof (cases "getNotebook key ?that = Some p")
    case True
    from Cons.IH [OF True gone] show ?thesis by simp
  next
    case False
    with Cons.prems(1) have "catchHandlerRuns (settle n) \<and> k = key \<and> n = p"
      by (auto simp: getNotebook_removeNotebook split: if_splits)
    with entry show ?thesis by auto
  qed
qed

lemma getNotebook_whileAwaitingSessions:
  "getNotebook key (whileAwaitingSessions sd pairs this) = None \<or>
   getNotebook key (whileAwaitingSessions sd pairs this) = getNotebook key this"
proof (induction pairs arbitrary: this)
  case Nil
  then show ?case by simp
next
  case (Cons pair pairs)
  obtain k n v where pair: "pair = ((k, n), v)" by (cases pair) auto
  let ?that = "case v of None \<Rightarrow> this
               | Some nb \<Rightarrow> if firesOnDidDispose (sd (notebookSession nb))
                            then onDidDispose k n this else this"
  have "getNotebook key ?that = None \<or> getNotebook key ?that = getNotebook key this"
    by (simp add: getNotebook_onDidDispose split: option.splits)
  with Cons.IH [of ?that] pair show ?case by auto
qed

lemma removed_whileAwaitingSessions:
  "getNotebook key this = Some p \<Longrightarrow>
   getNotebook key (whileAwaitingSessions sd pairs this) = None \<Longrightarrow>
   \<exists>nb. ((key, p), Some nb) \<in> set pairs \<and> firesOnDidDispose (sd (notebookSession nb))"
proof (induction pairs arbitrary: this)
  case Nil
  then show ?case by simp
next
  case (Cons pair pairs)
  obtain k n v where pair: "pair = ((k, n), v)" by (cases pair) auto
  let ?that = "case v of None \<Rightarrow> this
               | Some nb \<Rightarrow> if firesOnDidDispose (sd (notebookSession nb))
                            then onDidDispose k n this else this"
  from Cons.prems pair
  have gone: "getNotebook key (whileAwaitingSessions sd pairs ?that) = None"
    by simp
  show ?case
  proof (cases "getNotebook key ?that = Some p")
    case True
    from Cons.IH [OF True gone] show ?thesis by auto
  next
    case False
    with Cons.prems(1)
    have "\<exists>nb. v = Some nb \<and> firesOnDidDispose (sd (notebookSession nb)) \<and> k = key \<and> n = p"
      by (auto simp: getNotebook_onDidDispose split: option.splits if_splits)
    with pair show ?thesis by auto
  qed
qed

lemma promiseAll_Resolved_values: "promiseAll ps = Resolved vs \<Longrightarrow> ps = map Resolved vs"
proof (induction ps arbitrary: vs)
  case Nil
  then show ?case by simp
next
  case (Cons p ps)
  then show ?case by (cases p) (auto split: outcome.splits)
qed

lemma resolved_in_zip:
  "map settle (map snd tracked) = map Resolved nbs \<Longrightarrow>
   ((key, p), n) \<in> set (zip tracked nbs) \<Longrightarrow> settle p = Resolved n"
proof (induction tracked arbitrary: nbs)
  case Nil
  then show ?case by simp
next
  case (Cons entry tracked)
  then obtain v rest where nbs: "nbs = v # rest" by (cases nbs) auto
  with Cons show ?case by auto
qed

lemma getNotebook_dispose:
  "getNotebook key (snd (dispose settle sd this)) = None \<or>
   getNotebook key (snd (dispose settle sd this)) = getNotebook key this"
proof -
  let ?awaited = "whileAwaitingNotebooks settle (notebooks this) this"
  note first = getNotebook_whileAwaitingNotebooks [of key settle "notebooks this" this]
  show ?thesis
  proof (cases "promiseAll (map settle (map snd (notebooks this)))")
    case (Resolved nbs)
    from getNotebook_whileAwaitingSessions [of key sd "zip (notebooks this) nbs" ?awaited]
      first Resolved
    show ?thesis by (auto simp: dispose_def Let_def)
  qed (use first in \<open>simp_all add: dispose_def Let_def\<close>)
qed

lemma removed_by_dispose:
  assumes before: "getNotebook key this = Some p"
    and after: "getNotebook key (snd (dispose settle sd this)) = None"
  shows "settle p = Rejected \<or> settle p = Resolved None \<or>
     (\<exists>nb. settle p = Resolved (Some nb) \<and> firesOnDidDispose (sd (notebookSession nb)) \<and>
        (\<forall>q \<in> set (getNotebooks this). \<exists>n. settle q = Resolved n))"
proof -
  let ?awaited = "whileAwaitingNotebooks settle (notebooks this) this"
  have caught: "settle p = Rejected \<or> settle p = Resolved None"
    if "getNotebook key ?awaited = None"
  proof -
    from removed_whileAwaitingNotebooks [OF before that]
    have "catchHandlerRuns (settle p)" by simp
    then show ?thesis by (cases "settle p" rule: catchHandlerRuns.cases) simp_all
  qed
  show ?thesis
  proof (cases "promiseAll (map settle (map snd (notebooks this)))")
    case (Resolved nbs)
    then have all: "map settle (map snd (notebooks this)) = map Resolved nbs"
      by (rule promiseAll_Resolved_values)
    have every: "\<forall>q \<in> set (getNotebooks this). \<exists>n. settle q = Resolved n"
    proof
      fix q
      assume "q \<in> set (getNotebooks this)"
      then have "settle q \<in> set (map settle (map snd (notebooks this)))"
        by (force simp: getNotebooks_def)
      with all show "\<exists>n. settle q = Resolved n" by auto
    qed
    show ?thesis
    proof (cases "getNotebook key ?awaited = None")
      case True
      with caught show ?thesis by blast
    next
      case False
      with getNotebook_whileAwaitingNotebooks [of key settle "notebooks this" this] before
      have still: "getNotebook key ?awaited = Some p" by auto
      from after Resolved
      have "getNotebook key
              (whileAwaitingSessions sd (zip (notebooks this) nbs) ?awaited) = None"
        by (simp add: dispose_def Let_def)
      from removed_whileAwaitingSessions [OF still this]
      obtain nb where nb: "((key, p), Some nb) \<in> set (zip (notebooks this) nbs)"
        and fires: "firesOnDidDispose (sd (notebookSession nb))"
        by blast
      from resolved_in_zip [OF all nb] fires every show ?thesis by blast
    qed
  next
    case Rejected
    with after have "getNotebook key ?awaited = None"
      by (simp add: dispose_def Let_def)
    with caught show ?thesis by blast
  next
    case Pending
    with after have "getNotebook key ?awaited = None"
      by (simp add: dispose_def Let_def)
    with caught show ?thesis by blast
  qed
qed

text \<open>
  C10, as stated (after \<open>dispose\<close> completes, every registered key still maps to its
  session promise): false. The handlers run while \<open>dispose\<close> awaits. With the promise of
  key a rejected, \<open>removeNotebook\<close> has deleted the entry of a by the time \<open>dispose\<close> is
  rejected; and with both promises resolved and sessions that signal their disposal when
  disposed, the listeners have emptied the map.
\<close>

theorem dispose_drops_entries:
  "getNotebook ''a'' (setNotebook ''b'' 2 (setNotebook ''a'' 1 newProvider)) = Some 1 \<and>
   exampleSettle 1 = Rejected \<and>
   getNotebook ''a''
     (snd (dispose exampleSettle exampleSessionDispose
             (setNotebook ''b'' 2 (setNotebook ''a'' 1 newProvider)))) = None \<and>
   notebooks (setNotebook ''b'' 2 (setNotebook ''a'' 3 newProvider)) = [(''a'', 3), (''b'', 2)] \<and>
   notebooks
     (snd (dispose exampleSettle exampleSessionDispose
             (setNotebook ''b'' 2 (setNotebook ''a'' 3 newProvider)))) = []"
  by (simp add: dispose_def getNotebook_def setNotebook_def newProvider_def exampleSettle_def
      exampleSessionDispose_def removeNotebook_def onDidDispose_def)

text \<open>
  C10, amended: \<open>dispose\<close> itself never removes or changes an entry of the map, but the
  handlers that \<open>setNotebook\<close> installed run while it awaits. After \<open>dispose\<close>, a key
  either still maps to its promise or has no entry, and it has lost its entry only through
  its own handler: its promise was rejected (or resolved to no notebook), or all tracked
  promises resolved and the session of its notebook signalled its disposal. Among all the
  operations of the provider, an entry disappears only in the two handlers installed for
  that key and that promise, run on their own or during \<open>dispose\<close>.
\<close>

theorem entries_removed_only_by_handlers:
  "(getNotebook key (snd (dispose settle sd this)) = None \<or>
    getNotebook key (snd (dispose settle sd this)) = getNotebook key this) \<and>
   (getNotebook key this = Some p \<and> getNotebook key (snd (dispose settle sd this)) = None \<longrightarrow>
      settle p = Rejected \<or> settle p = Resolved None \<or>
      (\<exists>nb. settle p = Resolved (Some nb) \<and> firesOnDidDispose (sd (notebookSession nb)) \<and>
         (\<forall>q \<in> set (getNotebooks this). \<exists>n. settle q = Resolved n))) \<and>
   (getNotebook key this = Some p \<and> getNotebook key (step settle sd operation this) = None \<longrightarrow>
      operation = SessionDisposed key p \<or> operation = NotebookRejected key p \<or>
      operation = Dispose)"
proof -
  have "operation = SessionDisposed key p \<or> operation = NotebookRejected key p \<or>
        operation = Dispose"
    if before: "getNotebook key this = Some p"
      and after: "getNotebook key (step settle sd operation this) = None"
  proof (cases operation)
    case (Connect getOnly)
    with before after show ?thesis by (simp add: getNotebook_def notebooks_connect)
  next
    case GetConnection
    with before after show ?thesis by (simp add: getNotebook_def notebooks_getConnection)
  next
    case CreateNotebook
    with before after show ?thesis by (simp add: createNotebook_def)
  next
    case (SetNotebook key' notebook)
    with before after show ?thesis by (simp add: getNotebook_setNotebook split: if_splits)
  next
    case (SessionDisposed key' notebook)
    with before after show ?thesis by (simp add: getNotebook_onDidDispose split: if_splits)
  next
    case (NotebookRejected key' notebook)
    with before after show ?thesis by (simp add: getNotebook_removeNotebook split: if_splits)
  qed (use before after in simp_all)
  with getNotebook_dispose [of key settle sd this] removed_by_dispose [of key this p settle sd]
  show ?thesis by blast
qed

theorem entries_removed_only_by_handlers_witness:
  "getNotebook ''a'' (setNotebook ''b'' 2 (setNotebook ''a'' 1 newProvider)) = Some 1 \<and>
   getNotebook ''a''
     (snd (dispose exampleSettle exampleSessionDispose
             (setNotebook ''b'' 2 (setNotebook ''a'' 1 newProvider)))) = None \<and>
   getNotebook ''a''
     (step exampleSettle exampleSessionDispose Dispose
        (setNotebook ''b'' 2 (setNotebook ''a'' 1 newProvider))) = None \<and>
   exampleSettle 1 = Rejected"
proof -
  let ?provider = "setNotebook ''b'' 2 (setNotebook ''a'' 1 newProvider)"
  have before: "getNotebook ''a'' ?provider = Some 1"
    by (simp add: getNotebook_setNotebook)
  have after: "getNotebook ''a'' (snd (dispose exampleSettle exampleSessionDispose ?provider)) = None"
    by (simp add: dispose_def getNotebook_def setNotebook_def newProvider_def exampleSettle_def
        removeNotebook_def)
  from entries_removed_only_by_handlers [of "''a''" exampleSettle exampleSessionDispose ?provider 1
      Dispose] before after
  show ?thesis by (simp add: exampleSettle_def)
qed

subsection \<open>The connection\<close>

lemma connection_whileAwaitingNotebooks:
  "rawConnection (whileAwaitingNotebooks settle tracked this) = rawConnection this \<and>
   connectionsCreated (whileAwaitingNotebooks settle tracked this) = connectionsCreated this"
proof (induction tracked arbitrary: this)
  case Nil
  then show ?case by simp
next
  case (Cons entry tracked)
  obtain k n where "entry = (k, n)" by (cases entry)
  with Cons.IH [of "if catchHandlerRuns (settle n) then removeNotebook k n this else this"]
  show ?case by (simp add: removeNotebook_def)
qed

lemma connection_whileAwaitingSessions:
  "rawConnection (whileAwaitingSessions sd pairs this) = rawConnection this \<and>
   connectionsCreated (whileAwaitingSessions sd pairs this) = connectionsCreated this"
proof (induction pairs arbitrary: this)
  case Nil
  then show ?case by simp
next
  case (Cons pair pairs)
  obtain k n v where "pair = ((k, n), v)" by (cases pair) auto
  with Cons.IH [of "case v of None \<Rightarrow> this
                    | Some nb \<Rightarrow> if firesOnDidDispose (sd (notebookSession nb))
                                 then onDidDispose k n this else this"]
  show ?case by (simp add: onDidDispose_def split: option.splits)
qed

lemma connection_dispose:
  "rawConnection (snd (dispose settle sd this)) = rawConnection this \<and>
   connectionsCreated (snd (dispose settle sd this)) = connectionsCreated this"
  by (simp add: dispose_def Let_def connection_whileAwaitingNotebooks
      connection_whileAwaitingSessions split: outcome.splits)

lemma step_connection:
  "rawConnection this = Some c \<Longrightarrow>
   rawConnection (step settle sd operation this) = Some c \<and>
   connectionsCreated (step settle sd operation this) = connectionsCreated this"
  by (cases operation)
     (auto simp: connect_def getConnection_def createNotebook_def setNotebook_def
        connection_dispose onDidDispose_def removeNotebook_def Let_def)

lemma run_connection:
  "rawConnection this = Some c \<Longrightarrow>
   rawConnection (run settle sd operations this) = Some c \<and>
   connectionsCreated (run settle sd operations this) = connectionsCreated this"
proof (induction operations arbitrary: this)
  case Nil
  then show ?case by simp
next
  case (Cons operation operations)
  from step_connection [OF Cons.prems, of settle sd operation] Cons.IH show ?case by simp
qed

lemma step_fresh:
  "rawConnection this = None \<and> connectionsCreated this = 0 \<Longrightarrow>
   (rawConnection (step settle sd operation this) = None \<and>
      connectionsCreated (step settle sd operation this) = 0) \<or>
   (rawConnection (step settle sd operation this) = Some 0 \<and>
      connectionsCreated (step settle sd operation this) = 1)"
  by (cases operation)
     (auto simp: connect_def getConnection_def createNotebook_def setNotebook_def
        connection_dispose onDidDispose_def removeNotebook_def newRawConnection_def Let_def)

lemma run_fresh:
  "rawConnection this = None \<and> connectionsCreated this = 0 \<Longrightarrow>
   (rawConnection (run settle sd operations this) = None \<and>
      connectionsCreated (run settle sd operations this) = 0) \<or>
   (rawConnection (run settle sd operations this) = Some 0 \<and>
      connectionsCreated (run settle sd operations this) = 1)"
proof (induction operations arbitrary: this)
  case Nil
  then show ?case by simp
next
  case (Cons operation operations)
  from step_fresh [OF Cons.prems, of settle sd operation]
  show ?case
  proof
    assume "rawConnection (step settle sd operation this) = None \<and>
      connectionsCreated (step settle sd operation this) = 0"
    from Cons.IH [OF this] show ?thesis by simp
  next
    assume "rawConnection (step settle sd operation this) = Some 0 \<and>
      connectionsCreated (step settle sd operation this) = 1"
    with run_connection [of "step settle sd operation this" 0 settle sd operations]
    show ?thesis by simp
  qed
qed

lemma reachable:
  "(rawConnection (run settle sd operations newProvider) = None \<and>
      connectionsCreated (run settle sd operations newProvider) = 0) \<or>
   (rawConnection (run settle sd operations newProvider) = Some 0 \<and>
      connectionsCreated (run settle sd operations newProvider) = 1)"
  by (rule run_fresh) (simp add: newProvider_def)

lemma connect_creates:
  "(rawConnection this = None \<and> connectionsCreated this = 0) \<or>
   (rawConnection this = Some 0 \<and> connectionsCreated this = 1) \<Longrightarrow>
   fst (connect False this) = Some 0 \<and> rawConnection (snd (connect False this)) = Some 0 \<and>
   connectionsCreated (snd (connect False this)) = 1"
  by (auto simp: connect_def newRawConnection_def Let_def)

lemma getConnection_creates:
  "(rawConnection this = None \<and> connectionsCreated this = 0) \<or>
   (rawConnection this = Some 0 \<and> connectionsCreated this = 1) \<Longrightarrow>
   fst (getConnection this) = 0 \<and> rawConnection (snd (getConnection this)) = Some 0 \<and>
   connectionsCreated (snd (getConnection this)) = 1"
  by (auto simp: getConnection_def newRawConnection_def Let_def)

lemma connect_existing:
  "rawConnection this = Some c \<Longrightarrow> connect getOnly this = (Some c, this)"
  by (simp add: connect_def)

text \<open>
  C6: on a new provider, and on any provider that has no connection, \<open>connect\<close> with
  \<open>getOnly\<close> returns no connection and creates none. After any operations, \<open>connect\<close> without \<open>getOnly\<close> returns the one connection,
  and after any further operations \<open>connect\<close> in either mode returns that same
  connection and changes nothing; the same holds when \<open>getConnection\<close> comes first. The
  provider never creates a second connection.
\<close>

theorem connect_singleton:
  "connect True newProvider = (None, newProvider) \<and>
   connect True (this\<lparr>rawConnection := None\<rparr>) = (None, this\<lparr>rawConnection := None\<rparr>) \<and>
   connectionsCreated (run settle sd before newProvider) \<le> 1 \<and>
   fst (connect False (run settle sd before newProvider)) = Some 0 \<and>
   connect getOnly (run settle sd after (snd (connect False (run settle sd before newProvider))))
     = (Some 0, run settle sd after (snd (connect False (run settle sd before newProvider)))) \<and>
   connectionsCreated
     (run settle sd after (snd (connect False (run settle sd before newProvider)))) = 1 \<and>
   fst (getConnection (run settle sd before newProvider)) = 0 \<and>
   connect getOnly (run settle sd after (snd (getConnection (run settle sd before newProvider))))
     = (Some 0, run settle sd after (snd (getConnection (run settle sd before newProvider)))) \<and>
   connectionsCreated
     (run settle sd after (snd (getConnection (run settle sd before newProvider)))) = 1"
proof -
  let ?start = "run settle sd before newProvider"
  have first: "connect True newProvider = (None, newProvider)"
    "connect True (this\<lparr>rawConnection := None\<rparr>) = (None, this\<lparr>rawConnection := None\<rparr>)"
    by (simp_all add: connect_def newProvider_def)
  have le: "connectionsCreated ?start \<le> 1"
    using reachable [of settle sd before] by auto
  note c = connect_creates [OF reachable, of settle sd before]
  note g = getConnection_creates [OF reachable, of settle sd before]
  have rc: "rawConnection (run settle sd after (snd (connect False ?start))) = Some 0"
    "connectionsCreated (run settle sd after (snd (connect False ?start))) = 1"
    using run_connection [of "snd (connect False ?start)" 0 settle sd after] c by simp_all
  have rg: "rawConnection (run settle sd after (snd (getConnection ?start))) = Some 0"
    "connectionsCreated (run settle sd after (snd (getConnection ?start))) = 1"
    using run_connection [of "snd (getConnection ?start)" 0 settle sd after] g by simp_all
  show ?thesis
    using first le c g rc rg connect_existing [OF rc(1)] connect_existing [OF rg(1)]
    by simp
qed

end
